theory Spec2Isabelle
  imports Main "HOL-Library.Char_ord" "HOL-Library.List_Lexorder" "HOL-Library.Multiset"
begin

section \<open>The relational store of server.ts\<close>

text \<open>
  The server keeps its data in SQLite tables, created by the \<^verbatim>\<open>db.exec\<close> call at
  the top of \<^verbatim>\<open>server.ts\<close>. A table is modelled by the list of its rows in
  insertion order; a table that is only ever read by its integer primary key
  (\<^verbatim>\<open>users\<close>, \<^verbatim>\<open>posts\<close>) is a map from the key to the row. Row records
  carry the columns that the modelled statements read or write; identifiers are
  SQLite integers (\<open>int\<close>), text columns are strings, and the 0/1 flags are booleans.
  \<^verbatim>\<open>CURRENT_TIMESTAMP\<close> is text of the fixed form \<^verbatim>\<open>YYYY-MM-DD HH:MM:SS\<close>, compared
  bytewise by SQLite, which is the lexicographic order on \<open>string\<close>; the clock is
  an argument of every handler that inserts a row with a timestamp.
\<close>

record user_row =
  username :: string
  profile_pic :: "string option"
  is_private :: bool
  is_verified :: bool

record post_row =
  p_user_id :: int

record like_row =
  l_id :: int
  l_post_id :: int
  l_user_id :: int

record comment_row =
  c_id :: int
  c_post_id :: int
  c_user_id :: int
  c_content :: string
  c_created_at :: string

record follow_row =
  f_follower_id :: int
  f_following_id :: int
  f_status :: string

record message_row =
  m_id :: int
  m_sender_id :: int
  m_receiver_id :: int
  m_content :: string
  m_is_read :: bool
  m_created_at :: string

record notification_row =
  n_id :: int
  n_user_id :: int
  n_actor_id :: int
  n_type :: string
  n_post_id :: "int option"
  n_is_read :: bool
  n_created_at :: string

text \<open>
  The \<open>_seq\<close> fields are the \<^verbatim>\<open>sqlite_sequence\<close> counters of the
  \<^verbatim>\<open>AUTOINCREMENT\<close> keys: the largest key the table has ever held.
  \<open>foreign_keys\<close> is SQLite's pragma of that name: the schema declares the
  \<^verbatim>\<open>FOREIGN KEY\<close> clauses, the server never sets the pragma, so whether they are
  enforced is the database driver's default. Every result below holds for both values.
\<close>

record database =
  foreign_keys :: bool
  users :: "int \<rightharpoonup> user_row"
  posts :: "int \<rightharpoonup> post_row"
  likes :: "like_row list"
  likes_seq :: int
  comments :: "comment_row list"
  comments_seq :: int
  follows :: "follow_row list"
  messages :: "message_row list"
  messages_seq :: int
  notifications :: "notification_row list"
  notifications_seq :: int

text \<open>
  What a request handler answers: \<open>Json v\<close> is \<^verbatim>\<open>res.json(v)\<close>;
  \<open>Uncaught\<close> is an exception that leaves the handler (Express answers it with
  status 500), the statements run before it staying committed.
\<close>

datatype 'a response = Json 'a | Uncaught

subsection \<open>The SQL statements\<close>

text \<open>
  An \<^verbatim>\<open>INSERT\<close> that violates a constraint throws; the model returns \<open>None\<close>
  and the caller decides, as the source's \<^verbatim>\<open>try/catch\<close> does.
\<close>

text \<open>\<^verbatim>\<open>FOREIGN KEY(...) REFERENCES users(id)\<close> and \<^verbatim>\<open>REFERENCES posts(id)\<close>,
  checked when the pragma is on.\<close>

definition fk_users :: "database \<Rightarrow> int list \<Rightarrow> bool" where
  "fk_users db ids = (foreign_keys db \<longrightarrow> (\<forall>i \<in> set ids. users db i \<noteq> None))"

definition fk_posts :: "database \<Rightarrow> int list \<Rightarrow> bool" where
  "fk_posts db ids = (foreign_keys db \<longrightarrow> (\<forall>i \<in> set ids. posts db i \<noteq> None))"

text \<open>\<^verbatim>\<open>INSERT INTO follows (follower_id, following_id, status) VALUES (?, ?, ?)\<close>
  under \<^verbatim>\<open>PRIMARY KEY(follower_id, following_id)\<close>.\<close>

definition insert_follows :: "database \<Rightarrow> int \<Rightarrow> int \<Rightarrow> string \<Rightarrow> database option" where
  "insert_follows db follower_id following_id status =
     (if (\<exists>r \<in> set (follows db). f_follower_id r = follower_id \<and> f_following_id r = following_id)
      then None
      else if \<not> fk_users db [follower_id, following_id] then None
      else Some (db\<lparr>follows := follows db @
             [\<lparr>f_follower_id = follower_id, f_following_id = following_id, f_status = status\<rparr>]\<rparr>))"

text \<open>\<^verbatim>\<open>DELETE FROM follows WHERE follower_id = ? AND following_id = ?\<close>\<close>

definition delete_follows :: "database \<Rightarrow> int \<Rightarrow> int \<Rightarrow> database" where
  "delete_follows db follower_id following_id =
     db\<lparr>follows := filter (\<lambda>r. \<not> (f_follower_id r = follower_id \<and> f_following_id r = following_id))
                       (follows db)\<rparr>"

text \<open>\<^verbatim>\<open>UPDATE follows SET status = 'accepted' WHERE follower_id = ? AND following_id = ?\<close>\<close>

definition update_follows_accepted :: "database \<Rightarrow> int \<Rightarrow> int \<Rightarrow> database" where
  "update_follows_accepted db follower_id following_id =
     db\<lparr>follows := map (\<lambda>r. if f_follower_id r = follower_id \<and> f_following_id r = following_id
                             then r\<lparr>f_status := ''accepted''\<rparr> else r)
                       (follows db)\<rparr>"

text \<open>\<^verbatim>\<open>INSERT INTO notifications (user_id, actor_id, type[, post_id]) VALUES (...)\<close>:
  the key is the next \<^verbatim>\<open>AUTOINCREMENT\<close> value, \<^verbatim>\<open>is_read\<close> defaults to 0 and
  \<^verbatim>\<open>created_at\<close> to the clock.\<close>

definition insert_notifications ::
  "database \<Rightarrow> string \<Rightarrow> int \<Rightarrow> int \<Rightarrow> string \<Rightarrow> int option \<Rightarrow> database option" where
  "insert_notifications db now user_id actor_id type post_id =
     (if \<not> fk_users db [user_id, actor_id] then None
      else Some (db\<lparr>notifications := notifications db @
                      [\<lparr>n_id = notifications_seq db + 1, n_user_id = user_id, n_actor_id = actor_id,
                        n_type = type, n_post_id = post_id, n_is_read = False, n_created_at = now\<rparr>],
                    notifications_seq := notifications_seq db + 1\<rparr>))"

section \<open>The social graph: follow toggle and follow requests\<close>

text \<open>
  \<^verbatim>\<open>app.post("/api/follow")\<close>. Reading \<^verbatim>\<open>targetUser.is_private\<close> of a missing
  account throws before the \<^verbatim>\<open>try\<close>. Inside it, a failing insert (of the edge or of
  the notification) goes to the \<^verbatim>\<open>catch\<close>, which deletes the edge and answers
  \<^verbatim>\<open>unfollowed\<close>.
\<close>

definition post_api_follow :: "database \<Rightarrow> string \<Rightarrow> int \<Rightarrow> int \<Rightarrow> database \<times> string response" where
  "post_api_follow db now follower_id following_id =
     (case users db following_id of
        None \<Rightarrow> (db, Uncaught)
      | Some targetUser \<Rightarrow>
          let status = (if is_private targetUser then ''pending'' else ''accepted'') in
          (case insert_follows db follower_id following_id status of
             None \<Rightarrow> (delete_follows db follower_id following_id, Json ''unfollowed'')
           | Some db1 \<Rightarrow>
               (case (if status = ''pending''
                      then insert_notifications db1 now following_id follower_id ''follow_request'' None
                      else insert_notifications db1 now following_id follower_id ''follow'' None) of
                  None \<Rightarrow> (delete_follows db1 follower_id following_id, Json ''unfollowed'')
                | Some db2 \<Rightarrow> (db2, Json status))))"

text \<open>
  \<^verbatim>\<open>app.post("/api/follows/respond")\<close>. Neither statement is in a \<^verbatim>\<open>try\<close>:
  when the notification insert throws, the update before it has already run.
  Any action other than \<^verbatim>\<open>'accept'\<close> takes the \<^verbatim>\<open>else\<close> branch.
\<close>

definition post_api_follows_respond ::
  "database \<Rightarrow> string \<Rightarrow> int \<Rightarrow> int \<Rightarrow> string \<Rightarrow> database \<times> bool response" where
  "post_api_follows_respond db now follower_id following_id action =
     (if action = ''accept'' then
        (let db1 = update_follows_accepted db follower_id following_id in
         case insert_notifications db1 now follower_id following_id ''follow'' None of
           None \<Rightarrow> (db1, Uncaught)
         | Some db2 \<Rightarrow> (db2, Json True))
      else (delete_follows db follower_id following_id, Json True))"

text \<open>
  The accepted-edge queries. \<open>following_ids\<close> is the subquery of the feed and of the
  active stories, \<^verbatim>\<open>SELECT following_id FROM follows WHERE follower_id = ? AND status = 'accepted'\<close>;
  \<open>IsFollowing\<close> is the membership test \<^verbatim>\<open>p.user_id IN (...)\<close> those queries make
  with it. \<open>followersCount\<close> and \<open>followingCount\<close> are the counts of the profile
  endpoint.
\<close>

definition following_ids :: "database \<Rightarrow> int \<Rightarrow> int list" where
  "following_ids db follower =
     map f_following_id
       (filter (\<lambda>r. f_follower_id r = follower \<and> f_status r = ''accepted'') (follows db))"

definition IsFollowing :: "database \<Rightarrow> int \<Rightarrow> int \<Rightarrow> bool" where
  "IsFollowing db follower followee = (followee \<in> set (following_ids db follower))"

definition followersCount :: "database \<Rightarrow> int \<Rightarrow> nat" where
  "followersCount db uid =
     length (filter (\<lambda>r. f_following_id r = uid \<and> f_status r = ''accepted'') (follows db))"

definition followingCount :: "database \<Rightarrow> int \<Rightarrow> nat" where
  "followingCount db uid =
     length (filter (\<lambda>r. f_follower_id r = uid \<and> f_status r = ''accepted'') (follows db))"

text \<open>The edge of an ordered pair, if the table holds one.\<close>

definition edges :: "database \<Rightarrow> int \<Rightarrow> int \<Rightarrow> follow_row list" where
  "edges db follower followee =
     filter (\<lambda>r. f_follower_id r = follower \<and> f_following_id r = followee) (follows db)"

section \<open>Likes, comments and the notification listing\<close>

text \<open>\<^verbatim>\<open>INSERT INTO likes (post_id, user_id) VALUES (?, ?)\<close> under
  \<^verbatim>\<open>UNIQUE(post_id, user_id)\<close>, and the matching \<^verbatim>\<open>DELETE\<close>.\<close>

definition insert_likes :: "database \<Rightarrow> int \<Rightarrow> int \<Rightarrow> database option" where
  "insert_likes db post_id user_id =
     (if (\<exists>r \<in> set (likes db). l_post_id r = post_id \<and> l_user_id r = user_id) then None
      else if \<not> (fk_posts db [post_id] \<and> fk_users db [user_id]) then None
      else Some (db\<lparr>likes := likes db @
                      [\<lparr>l_id = likes_seq db + 1, l_post_id = post_id, l_user_id = user_id\<rparr>],
                    likes_seq := likes_seq db + 1\<rparr>))"

definition delete_likes :: "database \<Rightarrow> int \<Rightarrow> int \<Rightarrow> database" where
  "delete_likes db post_id user_id =
     db\<lparr>likes := filter (\<lambda>r. \<not> (l_post_id r = post_id \<and> l_user_id r = user_id)) (likes db)\<rparr>"

text \<open>\<^verbatim>\<open>app.post("/api/posts/:id/like")\<close>: the answer is the \<^verbatim>\<open>liked\<close> flag.\<close>

definition post_api_posts_like :: "database \<Rightarrow> string \<Rightarrow> int \<Rightarrow> int \<Rightarrow> database \<times> bool response" where
  "post_api_posts_like db now post_id user_id =
     (case insert_likes db post_id user_id of
        None \<Rightarrow> (delete_likes db post_id user_id, Json False)
      | Some db1 \<Rightarrow>
          (case posts db1 post_id of
             None \<Rightarrow> (db1, Json True)
           | Some post \<Rightarrow>
               if p_user_id post \<noteq> user_id then
                 (case insert_notifications db1 now (p_user_id post) user_id ''like'' (Some post_id) of
                    None \<Rightarrow> (delete_likes db1 post_id user_id, Json False)
                  | Some db2 \<Rightarrow> (db2, Json True))
               else (db1, Json True)))"

text \<open>\<^verbatim>\<open>INSERT INTO comments (post_id, user_id, content) VALUES (?, ?, ?)\<close>, with
  \<^verbatim>\<open>info.lastInsertRowid\<close>.\<close>

definition insert_comments ::
  "database \<Rightarrow> string \<Rightarrow> int \<Rightarrow> int \<Rightarrow> string \<Rightarrow> (database \<times> int) option" where
  "insert_comments db now post_id user_id content =
     (if \<not> (fk_posts db [post_id] \<and> fk_users db [user_id]) then None
      else Some (db\<lparr>comments := comments db @
                      [\<lparr>c_id = comments_seq db + 1, c_post_id = post_id, c_user_id = user_id,
                        c_content = content, c_created_at = now\<rparr>],
                    comments_seq := comments_seq db + 1\<rparr>,
                 comments_seq db + 1))"

text \<open>The closing query of the comment handler: the comment of a key joined with its
  author, \<^verbatim>\<open>undefined\<close> when the join is empty.\<close>

definition select_comment :: "database \<Rightarrow> int \<Rightarrow> (comment_row \<times> user_row) option" where
  "select_comment db cid =
     (case filter (\<lambda>c. c_id c = cid) (comments db) of
        [] \<Rightarrow> None
      | c # _ \<Rightarrow> (case users db (c_user_id c) of None \<Rightarrow> None | Some u \<Rightarrow> Some (c, u)))"

text \<open>\<^verbatim>\<open>app.post("/api/posts/:id/comments")\<close>: no \<^verbatim>\<open>try\<close>, so a failing insert
  leaves the handler as an exception.\<close>

definition post_api_posts_comments ::
  "database \<Rightarrow> string \<Rightarrow> int \<Rightarrow> int \<Rightarrow> string
     \<Rightarrow> database \<times> (comment_row \<times> user_row) option response" where
  "post_api_posts_comments db now post_id user_id content =
     (case insert_comments db now post_id user_id content of
        None \<Rightarrow> (db, Uncaught)
      | Some (db1, lastInsertRowid) \<Rightarrow>
          (case posts db1 post_id of
             None \<Rightarrow> (db1, Json (select_comment db1 lastInsertRowid))
           | Some post \<Rightarrow>
               if p_user_id post \<noteq> user_id then
                 (case insert_notifications db1 now (p_user_id post) user_id ''comment'' (Some post_id) of
                    None \<Rightarrow> (db1, Uncaught)
                  | Some db2 \<Rightarrow> (db2, Json (select_comment db2 lastInsertRowid)))
               else (db1, Json (select_comment db1 lastInsertRowid))))"

text \<open>How many notifications an account owns.\<close>

definition notification_count :: "database \<Rightarrow> int \<Rightarrow> nat" where
  "notification_count db recipient =
     length (filter (\<lambda>n. n_user_id n = recipient) (notifications db))"

text \<open>
  \<^verbatim>\<open>app.get("/api/notifications/:userId")\<close>:
  \<^verbatim>\<open>FROM notifications n JOIN users u ON n.actor_id = u.id WHERE n.user_id = ?\<close>
  keeps the account's notifications whose actor has a \<^verbatim>\<open>users\<close> row, paired with
  that row; \<^verbatim>\<open>ORDER BY n.created_at DESC LIMIT 50\<close> sorts them and cuts the list.
  SQLite leaves the order among rows of equal \<^verbatim>\<open>created_at\<close> open; the model
  fixes one (a stable sort, reversed).
\<close>

definition notifications_join :: "database \<Rightarrow> int \<Rightarrow> (notification_row \<times> user_row) list" where
  "notifications_join db userId =
     concat (map (\<lambda>n. case users db (n_actor_id n) of None \<Rightarrow> [] | Some u \<Rightarrow> [(n, u)])
                 (filter (\<lambda>n. n_user_id n = userId) (notifications db)))"

definition created_at_of :: "notification_row \<times> user_row \<Rightarrow> string" where
  "created_at_of r = n_created_at (fst r)"

definition order_by_created_at_desc ::
  "(notification_row \<times> user_row) list \<Rightarrow> (notification_row \<times> user_row) list" where
  "order_by_created_at_desc rows = rev (sort_key created_at_of rows)"

definition get_api_notifications :: "database \<Rightarrow> int \<Rightarrow> (notification_row \<times> user_row) list" where
  "get_api_notifications db userId = take 50 (order_by_created_at_desc (notifications_join db userId))"

section \<open>Presence and message delivery over the live connections\<close>

text \<open>
  \<^verbatim>\<open>onlineUsers\<close> is a JavaScript \<^verbatim>\<open>Map\<close> from the account identifier to the
  \<^verbatim>\<open>socket.id\<close> of a connection: the list of its entries in insertion order.
  \<^verbatim>\<open>set\<close> overwrites the value of a key in place and appends a new key,
  \<^verbatim>\<open>get\<close> reads the entry of a key, \<^verbatim>\<open>delete\<close> removes it.
\<close>

fun js_map_set :: "'k \<Rightarrow> 'v \<Rightarrow> ('k \<times> 'v) list \<Rightarrow> ('k \<times> 'v) list" where
  "js_map_set k v [] = [(k, v)]"
| "js_map_set k v (e # es) = (if fst e = k then (k, v) # es else e # js_map_set k v es)"

definition js_map_get :: "('k \<times> 'v) list \<Rightarrow> 'k \<Rightarrow> 'v option" where
  "js_map_get es k = map_of es k"

definition js_map_delete :: "'k \<Rightarrow> ('k \<times> 'v) list \<Rightarrow> ('k \<times> 'v) list" where
  "js_map_delete k es = filter (\<lambda>e. fst e \<noteq> k) es"

record server =
  srv_db :: database
  onlineUsers :: "(int \<times> string) list"

text \<open>
  What the server emits: \<open>IoEmit\<close> is \<^verbatim>\<open>io.emit\<close> (every connection),
  \<open>IoTo h\<close> is \<^verbatim>\<open>io.to(h).emit\<close> (the connection whose \<^verbatim>\<open>socket.id\<close> is
  \<open>h\<close>), \<open>SocketEmit h\<close> is \<^verbatim>\<open>socket.emit\<close> on the handler's own connection
  \<open>h\<close>. An emission is the target, the event name and the payload.
\<close>

datatype target = IoEmit | IoTo string | SocketEmit string

text \<open>
  The value of a property of a JSON object. \<open>JOther\<close> stands for any value that is
  not an integer, a string, a boolean or \<^verbatim>\<open>null\<close>, by its JSON text.
\<close>

datatype js_value = JNumber int | JString string | JBoolean bool | JNull | JOther string

text \<open>
  The payload of \<^verbatim>\<open>send_message\<close> is the object the client emitted. The handler
  reads its \<^verbatim>\<open>sender_id\<close>, \<^verbatim>\<open>receiver_id\<close> and \<^verbatim>\<open>content\<close>; \<open>d_own\<close>
  lists every other own property of the object, by name. The client of the repository
  sends none.
\<close>

record send_data =
  d_sender_id :: int
  d_receiver_id :: int
  d_content :: string
  d_own :: "(string \<times> js_value) list"

text \<open>
  The object the handler emits, \<^verbatim>\<open>{ id: info.lastInsertRowid, ...data, created_at: ... }\<close>:
  the spread copies every own property of the payload after \<^verbatim>\<open>id\<close> and before
  \<^verbatim>\<open>created_at\<close>. \<open>msg_own\<close> holds the copied properties other than these two.
\<close>

record message =
  msg_id :: js_value
  msg_sender_id :: int
  msg_receiver_id :: int
  msg_content :: string
  msg_created_at :: string
  msg_own :: "(string \<times> js_value) list"

datatype payload = Status int string | Message message

type_synonym emission = "target \<times> string \<times> payload"

text \<open>\<^verbatim>\<open>INSERT INTO messages (sender_id, receiver_id, content) VALUES (?, ?, ?)\<close>, with
  \<^verbatim>\<open>info.lastInsertRowid\<close>.\<close>

definition insert_messages ::
  "database \<Rightarrow> string \<Rightarrow> int \<Rightarrow> int \<Rightarrow> string \<Rightarrow> (database \<times> int) option" where
  "insert_messages db now sender_id receiver_id content =
     (if \<not> fk_users db [sender_id, receiver_id] then None
      else Some (db\<lparr>messages := messages db @
                      [\<lparr>m_id = messages_seq db + 1, m_sender_id = sender_id,
                        m_receiver_id = receiver_id, m_content = content, m_is_read = False,
                        m_created_at = now\<rparr>],
                    messages_seq := messages_seq db + 1\<rparr>,
                 messages_seq db + 1))"

text \<open>\<^verbatim>\<open>socket.on("join")\<close> on the connection \<open>sock\<close>.\<close>

definition on_join :: "string \<Rightarrow> int \<Rightarrow> server \<Rightarrow> server \<times> emission list" where
  "on_join sock userId st =
     (st\<lparr>onlineUsers := js_map_set userId sock (onlineUsers st)\<rparr>,
      [(IoEmit, ''user_status'', Status userId ''online'')])"

text \<open>
  \<^verbatim>\<open>socket.on("send_message")\<close> on the connection \<open>sock\<close>. \<open>now\<close> is the
  database clock of the inserted row, \<open>iso_now\<close> the \<^verbatim>\<open>new Date().toISOString()\<close>
  of the emitted object; an \<^verbatim>\<open>id\<close> among the payload's own properties replaces
  the inserted key in it. \<^verbatim>\<open>if (receiverSocketId)\<close> is JavaScript truthiness:
  \<^verbatim>\<open>undefined\<close> and the empty string are false. \<open>None\<close>: the insert threw and
  nothing was written or emitted.
\<close>

definition on_send_message ::
  "string \<Rightarrow> string \<Rightarrow> string \<Rightarrow> send_data \<Rightarrow> server \<Rightarrow> (server \<times> emission list) option" where
  "on_send_message sock now iso_now data st =
     (case insert_messages (srv_db st) now (d_sender_id data) (d_receiver_id data) (d_content data) of
        None \<Rightarrow> None
      | Some (db1, lastInsertRowid) \<Rightarrow>
          let message = \<lparr>msg_id = (case map_of (d_own data) ''id'' of
                                     None \<Rightarrow> JNumber lastInsertRowid
                                   | Some v \<Rightarrow> v),
                         msg_sender_id = d_sender_id data,
                         msg_receiver_id = d_receiver_id data, msg_content = d_content data,
                         msg_created_at = iso_now,
                         msg_own = filter (\<lambda>p. fst p \<noteq> ''id'' \<and> fst p \<noteq> ''created_at'')
                                     (d_own data)\<rparr>;
              receiverSocketId = js_map_get (onlineUsers st) (d_receiver_id data)
          in Some (st\<lparr>srv_db := db1\<rparr>,
                   (case receiverSocketId of
                      None \<Rightarrow> []
                    | Some h \<Rightarrow> if h \<noteq> [] then [(IoTo h, ''new_message'', Message message)] else [])
                   @ [(SocketEmit sock, ''message_sent'', Message message)]))"

text \<open>\<^verbatim>\<open>socket.on("disconnect")\<close> on the connection \<open>sock\<close>: the loop stops at
  the first entry whose value is this connection.\<close>

definition on_disconnect :: "string \<Rightarrow> server \<Rightarrow> server \<times> emission list" where
  "on_disconnect sock st =
     (case find (\<lambda>e. snd e = sock) (onlineUsers st) of
        None \<Rightarrow> (st, [])
      | Some (userId, socketId) \<Rightarrow>
          (st\<lparr>onlineUsers := js_map_delete userId (onlineUsers st)\<rparr>,
           [(IoEmit, ''user_status'', Status userId ''offline'')]))"

section \<open>Notation for the results, and example states\<close>

text \<open>The status and the notification kind the follow toggle chooses for a target
  account, and the row a notification insert appends.\<close>

definition follow_status_for :: "user_row \<Rightarrow> string" where
  "follow_status_for u = (if is_private u then ''pending'' else ''accepted'')"

definition follow_kind_for :: "user_row \<Rightarrow> string" where
  "follow_kind_for u = (if is_private u then ''follow_request'' else ''follow'')"

definition follow_notification :: "database \<Rightarrow> string \<Rightarrow> int \<Rightarrow> int \<Rightarrow> string \<Rightarrow> notification_row" where
  "follow_notification db now recipient actor kind =
     \<lparr>n_id = notifications_seq db + 1, n_user_id = recipient, n_actor_id = actor,
      n_type = kind, n_post_id = None, n_is_read = False, n_created_at = now\<rparr>"

text \<open>Three registered accounts: 1 and 3 public, 2 private; nothing else stored.\<close>

definition user_public :: user_row where
  "user_public = \<lparr>username = ''alice'', profile_pic = None, is_private = False, is_verified = False\<rparr>"

definition user_private :: user_row where
  "user_private = \<lparr>username = ''bob'', profile_pic = None, is_private = True, is_verified = False\<rparr>"

definition db_accounts :: database where
  "db_accounts =
     \<lparr>foreign_keys = True,
      users = [1 \<mapsto> user_public, 2 \<mapsto> user_private, 3 \<mapsto> user_public],
      posts = Map.empty, likes = [], likes_seq = 0, comments = [], comments_seq = 0,
      follows = [], messages = [], messages_seq = 0, notifications = [], notifications_seq = 0\<rparr>"

text \<open>The same accounts with a pending request of account 1 to follow account 2.\<close>

definition db_pending :: database where
  "db_pending = db_accounts\<lparr>follows :=
     [\<lparr>f_follower_id = 1, f_following_id = 2, f_status = ''pending''\<rparr>]\<rparr>"

text \<open>A server with no live connection, and one where account 2 is registered on
  the connection \<open>hB\<close>.\<close>

definition srv_idle :: server where
  "srv_idle = \<lparr>srv_db = db_accounts, onlineUsers = []\<rparr>"

definition srv_online :: server where
  "srv_online = \<lparr>srv_db = db_accounts, onlineUsers = [(2, ''hB'')]\<rparr>"

text \<open>A store in which account 1 owns 51 notifications, all from account 3: the one
  with key 1 from the first of January, the fifty with keys 2 to 51 from the second.\<close>

definition notification_at :: "int \<Rightarrow> string \<Rightarrow> notification_row" where
  "notification_at i t =
     \<lparr>n_id = i, n_user_id = 1, n_actor_id = 3, n_type = ''follow'', n_post_id = None,
      n_is_read = False, n_created_at = t\<rparr>"

definition db_busy :: database where
  "db_busy = db_accounts
     \<lparr>notifications := notification_at 1 ''2026-01-01 09:00:00'' #
                       map (\<lambda>i. notification_at i ''2026-01-02 09:00:00'') [2..51],
      notifications_seq := 51\<rparr>"

section \<open>Results on the social graph\<close>

subsection \<open>The statements and the two handlers\<close>

lemma fk_users_exist: "\<forall>i \<in> set ids. users db i \<noteq> None \<Longrightarrow> fk_users db ids"
  by (simp add: fk_users_def)

lemma edges_Nil_iff:
  "edges db a b = [] \<longleftrightarrow> \<not> (\<exists>r \<in> set (follows db). f_follower_id r = a \<and> f_following_id r = b)"
  by (auto simp: edges_def filter_empty_conv)

lemma delete_follows_absent: "edges db a b = [] \<Longrightarrow> delete_follows db a b = db"
  by (simp add: delete_follows_def edges_def filter_empty_conv)

lemma IsFollowing_edges:
  "IsFollowing db a b \<longleftrightarrow> (\<exists>r \<in> set (edges db a b). f_status r = ''accepted'')"
  by (auto simp: IsFollowing_def following_ids_def edges_def)

lemma IsFollowing_counted:
  assumes "IsFollowing db a b"
  shows "0 < followersCount db b \<and> 0 < followingCount db a"
proof -
  from assms obtain r where "r \<in> set (follows db)" and "f_follower_id r = a"
    and "f_following_id r = b" and "f_status r = ''accepted''"
    by (auto simp: IsFollowing_def following_ids_def)
  then show ?thesis
    by (auto simp: followersCount_def followingCount_def filter_empty_conv)
qed

lemma post_api_follow_new_edge:
  assumes "users db B = Some u" and "edges db A B = []" and "fk_users db [A, B]"
  shows "post_api_follow db t A B =
           (db\<lparr>follows := follows db @
                  [\<lparr>f_follower_id = A, f_following_id = B, f_status = follow_status_for u\<rparr>],
                notifications := notifications db @
                  [follow_notification db t B A (follow_kind_for u)],
                notifications_seq := notifications_seq db + 1\<rparr>,
            Json (follow_status_for u))"
proof -
  have ins: "insert_follows db A B s = Some (db\<lparr>follows := follows db @
                  [\<lparr>f_follower_id = A, f_following_id = B, f_status = s\<rparr>]\<rparr>)" for s
    using assms(2,3) by (simp add: insert_follows_def edges_Nil_iff)
  have fk: "fk_users (db\<lparr>follows := fs\<rparr>) [B, A]" for fs
    using assms(3) by (auto simp: fk_users_def)
  show ?thesis
    by (cases "is_private u")
       (simp_all add: post_api_follow_def assms(1) Let_def ins insert_notifications_def fk
          follow_status_for_def follow_kind_for_def follow_notification_def)
qed

lemma post_api_follow_existing_edge:
  assumes "users db B = Some u" and "edges db A B \<noteq> []"
  shows "post_api_follow db t A B = (delete_follows db A B, Json ''unfollowed'')"
proof -
  have "insert_follows db A B s = None" for s
    using assms(2) by (auto simp: insert_follows_def edges_Nil_iff)
  then show ?thesis by (simp add: post_api_follow_def assms(1) Let_def)
qed

lemma post_api_follow_rejected_insert:
  assumes "users db B = Some u" and "\<not> fk_users db [A, B]"
  shows "post_api_follow db t A B = (delete_follows db A B, Json ''unfollowed'')"
proof -
  have "insert_follows db A B s = None" for s
    using assms(2) by (auto simp: insert_follows_def)
  then show ?thesis by (simp add: post_api_follow_def assms(1) Let_def)
qed

lemma edges_delete_follows: "edges (delete_follows db a b) a b = []"
  by (auto simp: edges_def delete_follows_def filter_empty_conv)

lemma edges_after_new:
  "edges db A B = [] \<Longrightarrow>
   edges (db\<lparr>follows := follows db @ [\<lparr>f_follower_id = A, f_following_id = B, f_status = s\<rparr>],
             notifications := ns, notifications_seq := k\<rparr>) A B
     = [\<lparr>f_follower_id = A, f_following_id = B, f_status = s\<rparr>]"
  by (simp add: edges_def)

lemma respond_accept:
  assumes "fk_users db [A, B]"
  shows "post_api_follows_respond db t A B ''accept'' =
           ((update_follows_accepted db A B)
              \<lparr>notifications := notifications db @ [follow_notification db t A B ''follow''],
               notifications_seq := notifications_seq db + 1\<rparr>,
            Json True)"
proof -
  have "fk_users (update_follows_accepted db A B) [A, B]"
    using assms by (simp add: fk_users_def update_follows_accepted_def)
  then show ?thesis
    by (simp add: post_api_follows_respond_def Let_def insert_notifications_def
          follow_notification_def update_follows_accepted_def)
qed

lemma respond_accept_throws:
  assumes "\<not> fk_users db [A, B]"
  shows "post_api_follows_respond db t A B ''accept'' = (update_follows_accepted db A B, Uncaught)"
proof -
  have "\<not> fk_users (update_follows_accepted db A B) [A, B]"
    using assms by (simp add: fk_users_def update_follows_accepted_def)
  then show ?thesis
    by (simp add: post_api_follows_respond_def Let_def insert_notifications_def)
qed

lemma respond_reject:
  "action \<noteq> ''accept'' \<Longrightarrow>
   post_api_follows_respond db t A B action = (delete_follows db A B, Json True)"
  by (simp add: post_api_follows_respond_def)

lemma filter_map_status:
  "filter (\<lambda>r. f_follower_id r = A \<and> f_following_id r = B)
     (map (\<lambda>r. if f_follower_id r = A \<and> f_following_id r = B then r\<lparr>f_status := s\<rparr> else r) xs)
   = map (\<lambda>e. e\<lparr>f_status := s\<rparr>) (filter (\<lambda>r. f_follower_id r = A \<and> f_following_id r = B) xs)"
  by (induction xs) auto

lemma edges_update_follows_accepted:
  "edges (update_follows_accepted db A B) A B = map (\<lambda>e. e\<lparr>f_status := ''accepted''\<rparr>) (edges db A B)"
  by (simp add: edges_def update_follows_accepted_def filter_map_status)

lemma follows_update_follows_accepted_noop:
  assumes "\<forall>e \<in> set (edges db A B). f_status e = ''accepted''"
  shows "follows (update_follows_accepted db A B) = follows db"
proof -
  have "(if f_follower_id r = A \<and> f_following_id r = B then r\<lparr>f_status := ''accepted''\<rparr> else r) = r"
    if "r \<in> set (follows db)" for r
    using assms that by (auto simp: edges_def)
  then show ?thesis
    by (simp add: update_follows_accepted_def map_idI)
qed

subsection \<open>Follow toggle on a public account\<close>

text \<open>
  Claim C1. For accounts \<open>A \<noteq> B\<close> with \<open>B\<close> public and no \<open>(A, B)\<close> edge stored:
  the first \<^verbatim>\<open>POST /api/follow\<close> answers \<^verbatim>\<open>accepted\<close>, stores the edge with status
  \<^verbatim>\<open>accepted\<close>, and \<open>IsFollowing A B\<close> holds after it; the second call, on the
  state the first one left, answers \<^verbatim>\<open>unfollowed\<close>, deletes the edge, and
  \<open>IsFollowing A B\<close> no longer holds.
\<close>

theorem follow_toggle_public:
  assumes "A \<noteq> B"
    and "users db A \<noteq> None"
    and "users db B = Some u" and "\<not> is_private u"
    and "edges db A B = []"
    and "post_api_follow db t1 A B = (db1, r1)"
    and "post_api_follow db1 t2 A B = (db2, r2)"
  shows "r1 = Json ''accepted''
       \<and> edges db1 A B = [\<lparr>f_follower_id = A, f_following_id = B, f_status = ''accepted''\<rparr>]
       \<and> IsFollowing db1 A B
       \<and> r2 = Json ''unfollowed''
       \<and> edges db2 A B = []
       \<and> \<not> IsFollowing db2 A B"
proof -
  have fk: "fk_users db [A, B]"
    using assms(2,3) by (simp add: fk_users_def)
  have st: "follow_status_for u = ''accepted''"
    using assms(4) by (simp add: follow_status_for_def)
  from post_api_follow_new_edge [OF assms(3,5) fk, of t1] assms(6)
  have r1: "r1 = Json ''accepted''"
    and e1: "edges db1 A B = [\<lparr>f_follower_id = A, f_following_id = B, f_status = ''accepted''\<rparr>]"
    and u1: "users db1 B = Some u"
    using assms(3,5) by (auto simp: st edges_def)
  from e1 have "edges db1 A B \<noteq> []" by simp
  from post_api_follow_existing_edge [OF u1 this, of t2] assms(7)
  have r2: "r2 = Json ''unfollowed''" and d2: "db2 = delete_follows db1 A B"
    by simp_all
  show ?thesis
    by (simp add: r1 r2 e1 d2 edges_delete_follows IsFollowing_edges)
qed

theorem follow_toggle_public_witness:
  "snd (post_api_follow db_accounts ''2026-01-01 10:00:00'' 1 3) = Json ''accepted''
   \<and> IsFollowing (fst (post_api_follow db_accounts ''2026-01-01 10:00:00'' 1 3)) 1 3
   \<and> snd (post_api_follow (fst (post_api_follow db_accounts ''2026-01-01 10:00:00'' 1 3))
            ''2026-01-01 10:00:05'' 1 3) = Json ''unfollowed''
   \<and> \<not> IsFollowing (fst (post_api_follow (fst (post_api_follow db_accounts ''2026-01-01 10:00:00'' 1 3))
            ''2026-01-01 10:00:05'' 1 3)) 1 3"
proof -
  have a: "(1::int) \<noteq> 3" by simp
  have b: "users db_accounts 1 \<noteq> None" by (simp add: db_accounts_def)
  have c: "users db_accounts 3 = Some user_public" by (simp add: db_accounts_def)
  have d: "\<not> is_private user_public" by (simp add: user_public_def)
  have e: "edges db_accounts 1 3 = []" by (simp add: edges_def db_accounts_def)
  show ?thesis
    using follow_toggle_public [OF a b c d e prod.collapse [symmetric] prod.collapse [symmetric]]
    by simp
qed


subsection \<open>Follow toggle on a private account, and its acceptance\<close>

text \<open>
  Claim C7. For accounts \<open>A \<noteq> B\<close> with \<open>B\<close> private and no \<open>(A, B)\<close> edge stored:
  \<^verbatim>\<open>POST /api/follow\<close> answers \<^verbatim>\<open>pending\<close> and stores the edge with status
  \<^verbatim>\<open>pending\<close>; \<open>IsFollowing A B\<close> is false after it and in every later state
  \<open>db'\<close> that still holds that edge as it is; the \<^verbatim>\<open>accept\<close> answer of
  \<^verbatim>\<open>POST /api/follows/respond\<close> in such a state turns the edge to \<^verbatim>\<open>accepted\<close>,
  and \<open>IsFollowing A B\<close> holds from then.
\<close>

theorem follow_private_pending_until_accept:
  assumes "A \<noteq> B"
    and "users db A \<noteq> None"
    and "users db B = Some u" and "is_private u"
    and "edges db A B = []"
    and "post_api_follow db t1 A B = (db1, r1)"
    and "edges db' A B = edges db1 A B"
    and "users db' A \<noteq> None" and "users db' B \<noteq> None"
    and "post_api_follows_respond db' t2 A B ''accept'' = (db2, r2)"
  shows "r1 = Json ''pending''
       \<and> edges db1 A B = [\<lparr>f_follower_id = A, f_following_id = B, f_status = ''pending''\<rparr>]
       \<and> \<not> IsFollowing db1 A B
       \<and> \<not> IsFollowing db' A B
       \<and> r2 = Json True
       \<and> edges db2 A B = [\<lparr>f_follower_id = A, f_following_id = B, f_status = ''accepted''\<rparr>]
       \<and> IsFollowing db2 A B"
proof -
  have fk: "fk_users db [A, B]"
    using assms(2,3) by (simp add: fk_users_def)
  have st: "follow_status_for u = ''pending''"
    using assms(4) by (simp add: follow_status_for_def)
  from post_api_follow_new_edge [OF assms(3,5) fk, of t1] assms(6)
  have r1: "r1 = Json ''pending''"
    and e1: "edges db1 A B = [\<lparr>f_follower_id = A, f_following_id = B, f_status = ''pending''\<rparr>]"
    using assms(5) by (auto simp: st edges_def)
  have e': "edges db' A B = [\<lparr>f_follower_id = A, f_following_id = B, f_status = ''pending''\<rparr>]"
    using assms(7) e1 by simp
  have fk': "fk_users db' [A, B]"
    using assms(8,9) by (simp add: fk_users_def)
  from respond_accept [OF fk', of t2] assms(10)
  have r2: "r2 = Json True"
    and e2: "edges db2 A B = edges (update_follows_accepted db' A B) A B"
    by (auto simp: edges_def update_follows_accepted_def)
  have e2': "edges db2 A B = [\<lparr>f_follower_id = A, f_following_id = B, f_status = ''accepted''\<rparr>]"
    by (simp add: e2 edges_update_follows_accepted e')
  show ?thesis
    by (simp add: r1 r2 e1 e' e2' IsFollowing_edges)
qed

theorem follow_private_pending_until_accept_witness:
  "snd (post_api_follow db_accounts ''2026-01-01 10:00:00'' 1 2) = Json ''pending''
   \<and> \<not> IsFollowing (fst (post_api_follow db_accounts ''2026-01-01 10:00:00'' 1 2)) 1 2
   \<and> IsFollowing (fst (post_api_follows_respond
         (fst (post_api_follow db_accounts ''2026-01-01 10:00:00'' 1 2))
         ''2026-01-01 10:07:00'' 1 2 ''accept'')) 1 2"
proof -
  let ?db1 = "fst (post_api_follow db_accounts ''2026-01-01 10:00:00'' 1 2)"
  have a: "(1::int) \<noteq> 2" by simp
  have b: "users db_accounts 1 \<noteq> None" by (simp add: db_accounts_def)
  have c: "users db_accounts 2 = Some user_private" by (simp add: db_accounts_def)
  have d: "is_private user_private" by (simp add: user_private_def)
  have e: "edges db_accounts 1 2 = []" by (simp add: edges_def db_accounts_def)
  have f: "users ?db1 1 \<noteq> None" "users ?db1 2 \<noteq> None"
    by (simp_all add: post_api_follow_def insert_follows_def insert_notifications_def
          fk_users_def db_accounts_def user_private_def Let_def)
  show ?thesis
    using follow_private_pending_until_accept
      [OF a b c d e prod.collapse [symmetric] refl f prod.collapse [symmetric]]
    by simp
qed

subsection \<open>Following oneself\<close>

text \<open>
  Claim C4 says that a follow request of an account to itself fails validation and that
  no stored edge has its follower equal to its followee. The handler has no such check:
  on the three example accounts, account 1 following itself is answered
  \<^verbatim>\<open>accepted\<close> and stores the edge \<open>(1, 1)\<close>, with a notification of account 1
  to itself.
\<close>

theorem self_follow_counterexample:
  "snd (post_api_follow db_accounts ''2026-01-01 10:00:00'' 1 1) = Json ''accepted''
   \<and> follows (fst (post_api_follow db_accounts ''2026-01-01 10:00:00'' 1 1)) =
       [\<lparr>f_follower_id = 1, f_following_id = 1, f_status = ''accepted''\<rparr>]
   \<and> notifications (fst (post_api_follow db_accounts ''2026-01-01 10:00:00'' 1 1)) =
       [\<lparr>n_id = 1, n_user_id = 1, n_actor_id = 1, n_type = ''follow'', n_post_id = None,
         n_is_read = False, n_created_at = ''2026-01-01 10:00:00''\<rparr>]"
  by (simp add: post_api_follow_def insert_follows_def insert_notifications_def
        fk_users_def db_accounts_def user_public_def Let_def)

text \<open>
  Claim C4 as amended. A follow request of an existing account \<open>A\<close> to itself is
  handled as any other toggle: with no \<open>(A, A)\<close> edge stored, it stores that edge,
  \<^verbatim>\<open>pending\<close> when \<open>A\<close> is private and \<^verbatim>\<open>accepted\<close> otherwise, and answers
  that status.
\<close>

theorem self_follow_is_toggled:
  assumes "users db A = Some u"
    and "edges db A A = []"
    and "post_api_follow db t A A = (db', r)"
  shows "r = Json (if is_private u then ''pending'' else ''accepted'')
       \<and> edges db' A A =
           [\<lparr>f_follower_id = A, f_following_id = A,
             f_status = (if is_private u then ''pending'' else ''accepted'')\<rparr>]"
proof -
  have fk: "fk_users db [A, A]"
    using assms(1) by (simp add: fk_users_def)
  from post_api_follow_new_edge [OF assms(1,2) fk, of t] assms(3)
  show ?thesis
    using assms(2) by (auto simp: follow_status_for_def edges_def)
qed

theorem self_follow_is_toggled_witness:
  "snd (post_api_follow db_accounts ''2026-01-01 10:00:00'' 2 2) = Json ''pending''
   \<and> edges (fst (post_api_follow db_accounts ''2026-01-01 10:00:00'' 2 2)) 2 2 =
       [\<lparr>f_follower_id = 2, f_following_id = 2, f_status = ''pending''\<rparr>]"
proof -
  have c: "users db_accounts 2 = Some user_private" by (simp add: db_accounts_def)
  have e: "edges db_accounts 2 2 = []" by (simp add: edges_def db_accounts_def)
  show ?thesis
    using self_follow_is_toggled [OF c e prod.collapse [symmetric]]
    by (simp add: user_private_def)
qed

subsection \<open>Notifications of the social graph\<close>

lemma notifications_delete_follows: "notifications (delete_follows db a b) = notifications db"
  by (simp add: delete_follows_def)

lemma notifications_insert_follows:
  "insert_follows db a b s = Some db1 \<Longrightarrow> notifications db1 = notifications db \<and> notifications_seq db1 = notifications_seq db"
  by (auto simp: insert_follows_def split: if_splits)

lemma notifications_insert_notifications:
  "insert_notifications db t r a k p = Some db1 \<Longrightarrow>
   notifications db1 = notifications db @
     [\<lparr>n_id = notifications_seq db + 1, n_user_id = r, n_actor_id = a,
       n_type = k, n_post_id = p, n_is_read = False, n_created_at = t\<rparr>]"
  by (auto simp: insert_notifications_def split: if_splits)

lemma post_api_follow_notifications:
  assumes "post_api_follow db t A B = (db', Json s)"
  shows "(s = ''accepted'' \<longrightarrow> notifications db' = notifications db @
            [\<lparr>n_id = notifications_seq db + 1, n_user_id = B, n_actor_id = A,
              n_type = ''follow'', n_post_id = None, n_is_read = False, n_created_at = t\<rparr>])
       \<and> (s = ''pending'' \<longrightarrow> notifications db' = notifications db @
            [\<lparr>n_id = notifications_seq db + 1, n_user_id = B, n_actor_id = A,
              n_type = ''follow_request'', n_post_id = None, n_is_read = False, n_created_at = t\<rparr>])
       \<and> (s = ''unfollowed'' \<longrightarrow> notifications db' = notifications db)
       \<and> s \<in> {''accepted'', ''pending'', ''unfollowed''}"
  using assms
  by (auto simp: post_api_follow_def Let_def notifications_delete_follows
        dest!: notifications_insert_follows notifications_insert_notifications
        split: option.splits if_splits)

lemma respond_reject_notifications:
  assumes "post_api_follows_respond db t A B ''reject'' = (db', r)"
  shows "notifications db' = notifications db"
  using assms respond_reject [of "''reject''" db t A B]
  by (auto simp: notifications_delete_follows)

text \<open>
  What the follow toggle and the \<^verbatim>\<open>reject\<close> decision append
  (\<open>post_api_follow_notifications\<close>): a toggle answered \<^verbatim>\<open>accepted\<close> appends one
  \<^verbatim>\<open>follow\<close> notification and one answered \<^verbatim>\<open>pending\<close> one
  \<^verbatim>\<open>follow_request\<close> notification, owned by the followee with the follower as actor;
  a toggle answered \<^verbatim>\<open>unfollowed\<close> appends none, and neither does a \<^verbatim>\<open>reject\<close>
  decision (\<open>respond_reject_notifications\<close>).
\<close>

text \<open>
  Claim C6: every transition of the social graph to \<^verbatim>\<open>accepted\<close> or \<^verbatim>\<open>pending\<close>
  notifies the followee, with the follower as actor and kind \<^verbatim>\<open>follow\<close> or
  \<^verbatim>\<open>follow_request\<close>. The toggle does so: account 1 following the public account 3
  appends a \<^verbatim>\<open>follow\<close> notification owned by account 3 with account 1 as actor. The
  \<^verbatim>\<open>accept\<close> answer to a follow request passes the two identifiers to the same insert
  in the other order: accepting the pending request of account 1 to follow account 2
  turns the edge to \<^verbatim>\<open>accepted\<close> and appends a \<^verbatim>\<open>follow\<close> notification owned by
  account 1, the follower, with account 2, the followee, as actor.
\<close>

theorem respond_accept_notifies_follower:
  "notifications (fst (post_api_follow db_accounts ''2026-01-01 10:00:00'' 1 3)) =
     [\<lparr>n_id = 1, n_user_id = 3, n_actor_id = 1, n_type = ''follow'', n_post_id = None,
       n_is_read = False, n_created_at = ''2026-01-01 10:00:00''\<rparr>]
   \<and> edges (fst (post_api_follows_respond db_pending ''2026-01-01 10:07:00'' 1 2 ''accept'')) 1 2 =
     [\<lparr>f_follower_id = 1, f_following_id = 2, f_status = ''accepted''\<rparr>]
   \<and> notifications (fst (post_api_follows_respond db_pending ''2026-01-01 10:07:00'' 1 2 ''accept'')) =
     [\<lparr>n_id = 1, n_user_id = 1, n_actor_id = 2, n_type = ''follow'', n_post_id = None,
       n_is_read = False, n_created_at = ''2026-01-01 10:07:00''\<rparr>]"
  by (simp add: post_api_follow_def insert_follows_def post_api_follows_respond_def
        update_follows_accepted_def insert_notifications_def fk_users_def db_pending_def
        db_accounts_def user_public_def edges_def Let_def)

subsection \<open>Answering a follow request\<close>

text \<open>
  What the two decisions do to the edges: \<^verbatim>\<open>accept\<close> turns a pending
  edge to \<^verbatim>\<open>accepted\<close> and leaves the \<^verbatim>\<open>follows\<close> table as it is when the edge
  does not exist or is already accepted; \<^verbatim>\<open>reject\<close> deletes the edge and appends no
  notification.
\<close>

lemma respond_to_request_edges:
  "edges (fst (post_api_follows_respond db t A B ''accept'')) A B =
     map (\<lambda>e. e\<lparr>f_status := ''accepted''\<rparr>) (edges db A B)
   \<and> ((\<forall>e \<in> set (edges db A B). f_status e = ''accepted'') \<longrightarrow>
        follows (fst (post_api_follows_respond db t A B ''accept'')) = follows db)
   \<and> edges (fst (post_api_follows_respond db t A B ''reject'')) A B = []
   \<and> notifications (fst (post_api_follows_respond db t A B ''reject'')) = notifications db"
proof -
  have f: "follows (fst (post_api_follows_respond db t A B ''accept''))
             = follows (update_follows_accepted db A B)"
  proof (cases "fk_users db [A, B]")
    case True
    then show ?thesis by (simp add: respond_accept)
  next
    case False
    then show ?thesis by (simp add: respond_accept_throws)
  qed
  have 1: "edges (fst (post_api_follows_respond db t A B ''accept'')) A B =
     map (\<lambda>e. e\<lparr>f_status := ''accepted''\<rparr>) (edges db A B)"
    using edges_update_follows_accepted [of db A B] by (simp add: edges_def f)
  have 2: "(\<forall>e \<in> set (edges db A B). f_status e = ''accepted'') \<longrightarrow>
        follows (fst (post_api_follows_respond db t A B ''accept'')) = follows db"
    using follows_update_follows_accepted_noop [of db A B] by (simp add: f)
  have 3: "edges (fst (post_api_follows_respond db t A B ''reject'')) A B = []"
    by (simp add: respond_reject edges_delete_follows)
  have 4: "notifications (fst (post_api_follows_respond db t A B ''reject'')) = notifications db"
    by (simp add: respond_reject notifications_delete_follows)
  from 1 2 3 4 show ?thesis by simp
qed

text \<open>
  Claim C8: \<^verbatim>\<open>accept\<close> turns a pending edge to \<^verbatim>\<open>accepted\<close> and is a no-op, with
  no state change and no notification, when the edge does not exist or is not pending;
  \<^verbatim>\<open>reject\<close> deletes the pending edge. The \<^verbatim>\<open>accept\<close> branch runs its
  notification insert whether or not the \<^verbatim>\<open>UPDATE\<close> before it changed a row: with
  no edge from account 1 to account 3 stored, the \<^verbatim>\<open>accept\<close> answer leaves the edges
  as they are and appends a \<^verbatim>\<open>follow\<close> notification for account 1.
\<close>

theorem respond_accept_without_request_notifies:
  "edges db_accounts 1 3 = []
   \<and> post_api_follows_respond db_accounts ''2026-01-01 10:07:00'' 1 3 ''accept'' =
     (db_accounts\<lparr>notifications :=
        [\<lparr>n_id = 1, n_user_id = 1, n_actor_id = 3, n_type = ''follow'', n_post_id = None,
          n_is_read = False, n_created_at = ''2026-01-01 10:07:00''\<rparr>],
        notifications_seq := 1\<rparr>,
      Json True)"
  by (simp add: post_api_follows_respond_def update_follows_accepted_def insert_notifications_def
        fk_users_def db_accounts_def edges_def Let_def)

subsection \<open>How many notifications an event adds\<close>

text \<open>
  A like or a comment that the handler accepts adds one notification for the owner of the
  post when the actor is another account, and none when the actor is the owner or the
  post does not exist. A follow toggle that stores an edge adds one notification for the
  followee whoever the follower is.
\<close>

lemma insert_likes_keeps:
  "insert_likes db p a = Some db1 \<Longrightarrow>
   notifications db1 = notifications db \<and> notifications_seq db1 = notifications_seq db \<and> posts db1 = posts db"
  by (auto simp: insert_likes_def split: if_splits)

lemma insert_comments_keeps:
  "insert_comments db t p a c = Some (db1, k) \<Longrightarrow>
   notifications db1 = notifications db \<and> notifications_seq db1 = notifications_seq db \<and> posts db1 = posts db"
  by (auto simp: insert_comments_def split: if_splits)

lemma notification_count_append:
  "notifications db1 = notifications db @ [n] \<Longrightarrow>
   notification_count db1 R = notification_count db R + (if n_user_id n = R then 1 else 0)"
  by (simp add: notification_count_def)

lemma notification_count_same:
  "notifications db1 = notifications db \<Longrightarrow> notification_count db1 R = notification_count db R"
  by (simp add: notification_count_def)

lemma like_notification_count:
  assumes "post_api_posts_like db t p a = (db', Json True)"
  shows "notification_count db' R =
           notification_count db R +
             (if \<exists>post. posts db p = Some post \<and> p_user_id post = R \<and> a \<noteq> R then 1 else 0)"
proof (cases "insert_likes db p a")
  case None
  with assms show ?thesis by (simp add: post_api_posts_like_def)
next
  case (Some db1)
  note keeps = insert_likes_keeps [OF Some]
  show ?thesis
  proof (cases "posts db p")
    case None
    with assms Some keeps show ?thesis
      by (simp add: post_api_posts_like_def notification_count_def)
  next
    case post: (Some post)
    show ?thesis
    proof (cases "p_user_id post = a")
      case True
      with assms Some keeps post show ?thesis
        by (auto simp: post_api_posts_like_def notification_count_def)
    next
      case False
      show ?thesis
      proof (cases "insert_notifications db1 t (p_user_id post) a ''like'' (Some p)")
        case None
        with assms Some keeps post False show ?thesis
          by (simp add: post_api_posts_like_def)
      next
        case ins: (Some db2)
        have "db' = db2"
          using assms Some keeps post False ins by (simp add: post_api_posts_like_def)
        with notifications_insert_notifications [OF ins] keeps post False show ?thesis
          by (auto simp: notification_count_def)
      qed
    qed
  qed
qed

lemma comment_notification_count:
  assumes "post_api_posts_comments db t p a c = (db', Json row)"
  shows "notification_count db' R =
           notification_count db R +
             (if \<exists>post. posts db p = Some post \<and> p_user_id post = R \<and> a \<noteq> R then 1 else 0)"
proof (cases "insert_comments db t p a c")
  case None
  with assms show ?thesis by (simp add: post_api_posts_comments_def)
next
  case (Some pair)
  obtain db1 k where pair: "pair = (db1, k)" by (cases pair)
  note keeps = insert_comments_keeps [OF Some [unfolded pair]]
  show ?thesis
  proof (cases "posts db p")
    case None
    with assms Some pair keeps show ?thesis
      by (simp add: post_api_posts_comments_def notification_count_def)
  next
    case post: (Some post)
    show ?thesis
    proof (cases "p_user_id post = a")
      case True
      with assms Some pair keeps post show ?thesis
        by (auto simp: post_api_posts_comments_def notification_count_def)
    next
      case False
      show ?thesis
      proof (cases "insert_notifications db1 t (p_user_id post) a ''comment'' (Some p)")
        case None
        with assms Some pair keeps post False show ?thesis
          by (simp add: post_api_posts_comments_def)
      next
        case ins: (Some db2)
        have "db' = db2"
          using assms Some pair keeps post False ins by (simp add: post_api_posts_comments_def)
        with notifications_insert_notifications [OF ins] keeps post False show ?thesis
          by (auto simp: notification_count_def)
      qed
    qed
  qed
qed

lemma post_api_follow_status:
  assumes "post_api_follow db t A B = (db', Json s)"
  shows "s = ''accepted'' \<or> s = ''pending'' \<or> s = ''unfollowed''"
  using post_api_follow_notifications [OF assms] by simp

lemma follow_notification_count:
  assumes "post_api_follow db t A B = (db', Json s)" and "s \<noteq> ''unfollowed''"
  shows "notification_count db' R = notification_count db R + (if B = R then 1 else 0)"
proof -
  note n = post_api_follow_notifications [OF assms(1)]
  have st: "s = ''accepted'' \<or> s = ''pending''"
    using post_api_follow_status [OF assms(1)] assms(2) by simp
  show ?thesis
  proof (cases "s = ''accepted''")
    case True
    with n have "notifications db' = notifications db @
            [\<lparr>n_id = notifications_seq db + 1, n_user_id = B, n_actor_id = A,
              n_type = ''follow'', n_post_id = None, n_is_read = False, n_created_at = t\<rparr>]"
      by simp
    from notification_count_append [OF this, of R] show ?thesis by simp
  next
    case False
    with st have "s = ''pending''" by simp
    with n have "notifications db' = notifications db @
            [\<lparr>n_id = notifications_seq db + 1, n_user_id = B, n_actor_id = A,
              n_type = ''follow_request'', n_post_id = None, n_is_read = False, n_created_at = t\<rparr>]"
      by simp
    from notification_count_append [OF this, of R] show ?thesis by simp
  qed
qed

text \<open>
  Claim C9: a triggering event adds one notification for the recipient when the actor is
  another account and none when the actor is the recipient. The like and the comment
  handlers test \<^verbatim>\<open>post.user_id !== user_id\<close>; the follow handler has no such test.
  On the example accounts, account 1 following itself takes its notification count from 0
  to 1.
\<close>

theorem self_follow_notifies_self:
  "notification_count db_accounts 1 = 0
   \<and> snd (post_api_follow db_accounts ''2026-01-01 10:00:00'' 1 1) = Json ''accepted''
   \<and> notification_count (fst (post_api_follow db_accounts ''2026-01-01 10:00:00'' 1 1)) 1 = 1"
  by (simp add: notification_count_def post_api_follow_def insert_follows_def
        insert_notifications_def fk_users_def db_accounts_def user_public_def Let_def)

section \<open>Results on message delivery\<close>

lemma on_send_message_Some:
  assumes "fk_users (srv_db st) [d_sender_id data, d_receiver_id data]"
    and "msg = \<lparr>msg_id = (case map_of (d_own data) ''id'' of
                             None \<Rightarrow> JNumber (messages_seq (srv_db st) + 1)
                           | Some v \<Rightarrow> v),
                 msg_sender_id = d_sender_id data, msg_receiver_id = d_receiver_id data,
                 msg_content = d_content data, msg_created_at = iso_now,
                 msg_own = filter (\<lambda>p. fst p \<noteq> ''id'' \<and> fst p \<noteq> ''created_at'') (d_own data)\<rparr>"
  shows "on_send_message sock now iso_now data st =
           Some (st\<lparr>srv_db := (srv_db st)
                    \<lparr>messages := messages (srv_db st) @
                       [\<lparr>m_id = messages_seq (srv_db st) + 1, m_sender_id = d_sender_id data,
                         m_receiver_id = d_receiver_id data, m_content = d_content data,
                         m_is_read = False, m_created_at = now\<rparr>],
                     messages_seq := messages_seq (srv_db st) + 1\<rparr>\<rparr>,
                 (case js_map_get (onlineUsers st) (d_receiver_id data) of
                    None \<Rightarrow> []
                  | Some h \<Rightarrow> if h \<noteq> [] then [(IoTo h, ''new_message'', Message msg)] else [])
                 @ [(SocketEmit sock, ''message_sent'', Message msg)])"
  unfolding assms(2) using assms(1)
  by (simp add: on_send_message_def insert_messages_def Let_def)

text \<open>
  Claim C2 says that both events carry the generated message identifier. The emitted
  object is \<^verbatim>\<open>{ id: info.lastInsertRowid, ...data, created_at }\<close>, so a payload that has
  an \<^verbatim>\<open>id\<close> of its own replaces the generated one: the message of account 1 to the
  registered account 2 sent with \<^verbatim>\<open>id: 999\<close> is stored under the key 1, and both
  events carry the identifier 999.
\<close>

theorem send_message_payload_id_counterexample:
  "on_send_message ''hA'' ''2026-01-01 10:00:00'' ''2026-01-01T10:00:00.000Z''
       \<lparr>d_sender_id = 1, d_receiver_id = 2, d_content = ''hi'', d_own = [(''id'', JNumber 999)]\<rparr>
       srv_online
     = Some (srv_online\<lparr>srv_db := db_accounts
               \<lparr>messages := [\<lparr>m_id = 1, m_sender_id = 1, m_receiver_id = 2, m_content = ''hi'',
                              m_is_read = False, m_created_at = ''2026-01-01 10:00:00''\<rparr>],
                messages_seq := 1\<rparr>\<rparr>,
             [(IoTo ''hB'', ''new_message'',
               Message \<lparr>msg_id = JNumber 999, msg_sender_id = 1, msg_receiver_id = 2,
                        msg_content = ''hi'', msg_created_at = ''2026-01-01T10:00:00.000Z'',
                        msg_own = []\<rparr>),
              (SocketEmit ''hA'', ''message_sent'',
               Message \<lparr>msg_id = JNumber 999, msg_sender_id = 1, msg_receiver_id = 2,
                        msg_content = ''hi'', msg_created_at = ''2026-01-01T10:00:00.000Z'',
                        msg_own = []\<rparr>)])"
  by (simp add: on_send_message_def insert_messages_def fk_users_def Let_def
          srv_online_def db_accounts_def js_map_get_def)

text \<open>
  Claim C2 as amended. For a \<^verbatim>\<open>send_message\<close> event of existing accounts whose payload
  has no \<^verbatim>\<open>id\<close> of its own, arriving on the connection \<open>sock\<close>: the message row is
  appended to \<^verbatim>\<open>messages\<close> with the next key; when the recipient is registered to a
  handle \<open>hB\<close> (a \<^verbatim>\<open>socket.id\<close>, never empty), the emissions are exactly one
  \<^verbatim>\<open>new_message\<close> to \<open>hB\<close> followed by one \<^verbatim>\<open>message_sent\<close> on \<open>sock\<close>; when
  the recipient is not registered, only the \<^verbatim>\<open>message_sent\<close> on \<open>sock\<close>. Both
  events carry the same object \<open>msg\<close>, with the content of the payload and the key of
  the inserted row as its identifier.
\<close>

theorem send_message_delivery:
  assumes "users (srv_db st) (d_sender_id data) \<noteq> None"
    and "users (srv_db st) (d_receiver_id data) \<noteq> None"
    and "map_of (d_own data) ''id'' = None"
  shows "\<exists>st' evs msg.
           on_send_message sock now iso_now data st = Some (st', evs)
         \<and> msg = \<lparr>msg_id = JNumber (messages_seq (srv_db st) + 1),
                  msg_sender_id = d_sender_id data, msg_receiver_id = d_receiver_id data,
                  msg_content = d_content data, msg_created_at = iso_now,
                  msg_own = filter (\<lambda>p. fst p \<noteq> ''id'' \<and> fst p \<noteq> ''created_at'') (d_own data)\<rparr>
         \<and> messages (srv_db st') = messages (srv_db st) @
             [\<lparr>m_id = messages_seq (srv_db st) + 1, m_sender_id = d_sender_id data,
               m_receiver_id = d_receiver_id data, m_content = d_content data,
               m_is_read = False, m_created_at = now\<rparr>]
         \<and> (\<forall>hB. js_map_get (onlineUsers st) (d_receiver_id data) = Some hB \<and> hB \<noteq> [] \<longrightarrow>
               evs = [(IoTo hB, ''new_message'', Message msg),
                      (SocketEmit sock, ''message_sent'', Message msg)])
         \<and> (js_map_get (onlineUsers st) (d_receiver_id data) = None \<longrightarrow>
               evs = [(SocketEmit sock, ''message_sent'', Message msg)])"
proof -
  have fk: "fk_users (srv_db st) [d_sender_id data, d_receiver_id data]"
    using assms(1,2) by (simp add: fk_users_def)
  show ?thesis
    unfolding on_send_message_Some [OF fk refl] by (auto simp: assms(3))
qed

theorem send_message_delivery_witness:
  "on_send_message ''hA'' ''2026-01-01 10:00:00'' ''2026-01-01T10:00:00.000Z''
       \<lparr>d_sender_id = 1, d_receiver_id = 2, d_content = ''hi'', d_own = []\<rparr> srv_online
     = Some (srv_online\<lparr>srv_db := db_accounts
               \<lparr>messages := [\<lparr>m_id = 1, m_sender_id = 1, m_receiver_id = 2, m_content = ''hi'',
                              m_is_read = False, m_created_at = ''2026-01-01 10:00:00''\<rparr>],
                messages_seq := 1\<rparr>\<rparr>,
             [(IoTo ''hB'', ''new_message'',
               Message \<lparr>msg_id = JNumber 1, msg_sender_id = 1, msg_receiver_id = 2,
                        msg_content = ''hi'', msg_created_at = ''2026-01-01T10:00:00.000Z'',
                        msg_own = []\<rparr>),
              (SocketEmit ''hA'', ''message_sent'',
               Message \<lparr>msg_id = JNumber 1, msg_sender_id = 1, msg_receiver_id = 2,
                        msg_content = ''hi'', msg_created_at = ''2026-01-01T10:00:00.000Z'',
                        msg_own = []\<rparr>)])
   \<and> (\<exists>st'. on_send_message ''hA'' ''2026-01-01 10:00:00'' ''2026-01-01T10:00:00.000Z''
       \<lparr>d_sender_id = 1, d_receiver_id = 3, d_content = ''hi'', d_own = []\<rparr> srv_online
     = Some (st', [(SocketEmit ''hA'', ''message_sent'',
               Message \<lparr>msg_id = JNumber 1, msg_sender_id = 1, msg_receiver_id = 3,
                        msg_content = ''hi'', msg_created_at = ''2026-01-01T10:00:00.000Z'',
                        msg_own = []\<rparr>)]))"
proof -
  have u: "users (srv_db srv_online) 1 \<noteq> None" "users (srv_db srv_online) 2 \<noteq> None"
    "users (srv_db srv_online) 3 \<noteq> None"
    by (simp_all add: srv_online_def db_accounts_def)
  have g: "js_map_get (onlineUsers srv_online) 2 = Some ''hB''"
    "js_map_get (onlineUsers srv_online) 3 = None"
    by (simp_all add: srv_online_def js_map_get_def)
  have s: "srv_db srv_online = db_accounts" "messages db_accounts = []" "messages_seq db_accounts = 0"
    by (simp_all add: srv_online_def db_accounts_def)
  from send_message_delivery
    [of srv_online "\<lparr>d_sender_id = 1, d_receiver_id = 2, d_content = ''hi'', d_own = []\<rparr>"
      "''hA''" "''2026-01-01 10:00:00''" "''2026-01-01T10:00:00.000Z''"] u g s
  have one: "\<exists>st'. on_send_message ''hA'' ''2026-01-01 10:00:00'' ''2026-01-01T10:00:00.000Z''
       \<lparr>d_sender_id = 1, d_receiver_id = 2, d_content = ''hi'', d_own = []\<rparr> srv_online
     = Some (st',
             [(IoTo ''hB'', ''new_message'',
               Message \<lparr>msg_id = JNumber 1, msg_sender_id = 1, msg_receiver_id = 2,
                        msg_content = ''hi'', msg_created_at = ''2026-01-01T10:00:00.000Z'',
                        msg_own = []\<rparr>),
              (SocketEmit ''hA'', ''message_sent'',
               Message \<lparr>msg_id = JNumber 1, msg_sender_id = 1, msg_receiver_id = 2,
                        msg_content = ''hi'', msg_created_at = ''2026-01-01T10:00:00.000Z'',
                        msg_own = []\<rparr>)])"
    by auto
  from send_message_delivery
    [of srv_online "\<lparr>d_sender_id = 1, d_receiver_id = 3, d_content = ''hi'', d_own = []\<rparr>"
      "''hA''" "''2026-01-01 10:00:00''" "''2026-01-01T10:00:00.000Z''"] u g s
  have two: "\<exists>st'. on_send_message ''hA'' ''2026-01-01 10:00:00'' ''2026-01-01T10:00:00.000Z''
       \<lparr>d_sender_id = 1, d_receiver_id = 3, d_content = ''hi'', d_own = []\<rparr> srv_online
     = Some (st', [(SocketEmit ''hA'', ''message_sent'',
               Message \<lparr>msg_id = JNumber 1, msg_sender_id = 1, msg_receiver_id = 3,
                        msg_content = ''hi'', msg_created_at = ''2026-01-01T10:00:00.000Z'',
                        msg_own = []\<rparr>)])"
    by auto
  from one two show ?thesis
    by (auto simp: on_send_message_def insert_messages_def fk_users_def Let_def
          srv_online_def db_accounts_def js_map_get_def)
qed

text \<open>
  Claim C5 says that a send with empty content is rejected before any mutation. The
  handler does not look at the content: the empty message of account 1 to account 2 is
  stored and both events are emitted.
\<close>

theorem empty_content_counterexample:
  "on_send_message ''hA'' ''2026-01-01 10:00:00'' ''2026-01-01T10:00:00.000Z''
       \<lparr>d_sender_id = 1, d_receiver_id = 2, d_content = [], d_own = []\<rparr> srv_online
     = Some (srv_online\<lparr>srv_db := db_accounts
               \<lparr>messages := [\<lparr>m_id = 1, m_sender_id = 1, m_receiver_id = 2, m_content = [],
                              m_is_read = False, m_created_at = ''2026-01-01 10:00:00''\<rparr>],
                messages_seq := 1\<rparr>\<rparr>,
             [(IoTo ''hB'', ''new_message'',
               Message \<lparr>msg_id = JNumber 1, msg_sender_id = 1, msg_receiver_id = 2,
                        msg_content = [], msg_created_at = ''2026-01-01T10:00:00.000Z'',
                        msg_own = []\<rparr>),
              (SocketEmit ''hA'', ''message_sent'',
               Message \<lparr>msg_id = JNumber 1, msg_sender_id = 1, msg_receiver_id = 2,
                        msg_content = [], msg_created_at = ''2026-01-01T10:00:00.000Z'',
                        msg_own = []\<rparr>)])"
  by (simp add: on_send_message_def insert_messages_def fk_users_def Let_def
          srv_online_def db_accounts_def js_map_get_def)

text \<open>
  Claim C5 as amended. A \<^verbatim>\<open>send_message\<close> event with empty content is not rejected
  by the server; it is handled as one with any other content. For existing accounts, the
  row with the empty content is appended to \<^verbatim>\<open>messages\<close>; when the recipient is
  registered to a handle \<open>hB\<close>, the emissions are exactly one \<^verbatim>\<open>new_message\<close> to
  \<open>hB\<close> followed by one \<^verbatim>\<open>message_sent\<close> on the sender's connection \<open>sock\<close>;
  when the recipient is not registered, only the \<^verbatim>\<open>message_sent\<close> on \<open>sock\<close>. Both
  events carry the same object, with the empty content.
\<close>

theorem empty_content_is_sent:
  assumes "d_content data = []"
    and "users (srv_db st) (d_sender_id data) \<noteq> None"
    and "users (srv_db st) (d_receiver_id data) \<noteq> None"
  shows "\<exists>st' evs msg.
           on_send_message sock now iso_now data st = Some (st', evs)
         \<and> msg_sender_id msg = d_sender_id data \<and> msg_receiver_id msg = d_receiver_id data
         \<and> msg_content msg = [] \<and> msg_created_at msg = iso_now
         \<and> (map_of (d_own data) ''id'' = None \<longrightarrow>
               msg_id msg = JNumber (messages_seq (srv_db st) + 1))
         \<and> messages (srv_db st') = messages (srv_db st) @
             [\<lparr>m_id = messages_seq (srv_db st) + 1, m_sender_id = d_sender_id data,
               m_receiver_id = d_receiver_id data, m_content = [],
               m_is_read = False, m_created_at = now\<rparr>]
         \<and> (\<forall>hB. js_map_get (onlineUsers st) (d_receiver_id data) = Some hB \<and> hB \<noteq> [] \<longrightarrow>
               evs = [(IoTo hB, ''new_message'', Message msg),
                      (SocketEmit sock, ''message_sent'', Message msg)])
         \<and> (js_map_get (onlineUsers st) (d_receiver_id data) = None \<longrightarrow>
               evs = [(SocketEmit sock, ''message_sent'', Message msg)])"
proof -
  have fk: "fk_users (srv_db st) [d_sender_id data, d_receiver_id data]"
    using assms(2,3) by (simp add: fk_users_def)
  let ?msg = "\<lparr>msg_id = (case map_of (d_own data) ''id'' of
                             None \<Rightarrow> JNumber (messages_seq (srv_db st) + 1)
                           | Some v \<Rightarrow> v),
               msg_sender_id = d_sender_id data, msg_receiver_id = d_receiver_id data,
               msg_content = d_content data, msg_created_at = iso_now,
               msg_own = filter (\<lambda>p. fst p \<noteq> ''id'' \<and> fst p \<noteq> ''created_at'') (d_own data)\<rparr>"
  show ?thesis
    unfolding on_send_message_Some [OF fk refl]
    by (auto simp: assms(1) intro!: exI [of _ ?msg])
qed

theorem empty_content_is_sent_witness:
  "(\<exists>st'. on_send_message ''hA'' ''2026-01-01 10:00:00'' ''2026-01-01T10:00:00.000Z''
       \<lparr>d_sender_id = 1, d_receiver_id = 2, d_content = [], d_own = []\<rparr> srv_online
     = Some (st',
             [(IoTo ''hB'', ''new_message'',
               Message \<lparr>msg_id = JNumber 1, msg_sender_id = 1, msg_receiver_id = 2,
                        msg_content = [], msg_created_at = ''2026-01-01T10:00:00.000Z'',
                        msg_own = []\<rparr>),
              (SocketEmit ''hA'', ''message_sent'',
               Message \<lparr>msg_id = JNumber 1, msg_sender_id = 1, msg_receiver_id = 2,
                        msg_content = [], msg_created_at = ''2026-01-01T10:00:00.000Z'',
                        msg_own = []\<rparr>)]))
   \<and> (\<exists>st'. on_send_message ''hA'' ''2026-01-01 10:00:00'' ''2026-01-01T10:00:00.000Z''
       \<lparr>d_sender_id = 1, d_receiver_id = 3, d_content = [], d_own = []\<rparr> srv_online
     = Some (st', [(SocketEmit ''hA'', ''message_sent'',
               Message \<lparr>msg_id = JNumber 1, msg_sender_id = 1, msg_receiver_id = 3,
                        msg_content = [], msg_created_at = ''2026-01-01T10:00:00.000Z'',
                        msg_own = []\<rparr>)]))"
proof -
  have u: "users (srv_db srv_online) 1 \<noteq> None" "users (srv_db srv_online) 2 \<noteq> None"
    "users (srv_db srv_online) 3 \<noteq> None"
    by (simp_all add: srv_online_def db_accounts_def)
  have g: "js_map_get (onlineUsers srv_online) 2 = Some ''hB''"
    "js_map_get (onlineUsers srv_online) 3 = None"
    by (simp_all add: srv_online_def js_map_get_def)
  from empty_content_is_sent
    [of "\<lparr>d_sender_id = 1, d_receiver_id = 2, d_content = [], d_own = []\<rparr>"
      srv_online "''hA''" "''2026-01-01 10:00:00''" "''2026-01-01T10:00:00.000Z''"] u g
  have one: "\<exists>st' msg. on_send_message ''hA'' ''2026-01-01 10:00:00'' ''2026-01-01T10:00:00.000Z''
       \<lparr>d_sender_id = 1, d_receiver_id = 2, d_content = [], d_own = []\<rparr> srv_online
     = Some (st', [(IoTo ''hB'', ''new_message'', Message msg),
                   (SocketEmit ''hA'', ''message_sent'', Message msg)])"
    by auto
  from empty_content_is_sent
    [of "\<lparr>d_sender_id = 1, d_receiver_id = 3, d_content = [], d_own = []\<rparr>"
      srv_online "''hA''" "''2026-01-01 10:00:00''" "''2026-01-01T10:00:00.000Z''"] u g
  have two: "\<exists>st' msg. on_send_message ''hA'' ''2026-01-01 10:00:00'' ''2026-01-01T10:00:00.000Z''
       \<lparr>d_sender_id = 1, d_receiver_id = 3, d_content = [], d_own = []\<rparr> srv_online
     = Some (st', [(SocketEmit ''hA'', ''message_sent'', Message msg)])"
    by auto
  from one two show ?thesis
    by (auto simp: on_send_message_def insert_messages_def fk_users_def Let_def
          srv_online_def db_accounts_def js_map_get_def)
qed

section \<open>Results on presence\<close>

lemma map_of_js_map_set: "map_of (js_map_set k v es) = (map_of es)(k \<mapsto> v)"
  by (induction es) (auto simp: fun_eq_iff)

lemma keys_js_map_set: "fst ` set (js_map_set k v es) = insert k (fst ` set es)"
  by (induction es) auto

lemma distinct_js_map_set:
  "distinct (map fst es) \<Longrightarrow> distinct (map fst (js_map_set k v es))"
proof (induction es)
  case Nil
  then show ?case by simp
next
  case (Cons e es)
  have "fst e \<notin> fst ` set (js_map_set k v es)" if "fst e \<noteq> k"
    using Cons.prems that by (simp add: keys_js_map_set)
  with Cons show ?case by auto
qed

lemma entry_js_map_set:
  assumes "distinct (map fst es)" and "e \<in> set (js_map_set k v es)"
  shows "e = (k, v) \<or> (e \<in> set es \<and> fst e \<noteq> k)"
proof -
  have d: "distinct (map fst (js_map_set k v es))"
    using assms(1) by (rule distinct_js_map_set)
  have "map_of (js_map_set k v es) (fst e) = Some (snd e)"
    using d assms(2) by (simp add: map_of_eq_Some_iff)
  then have "((map_of es)(k \<mapsto> v)) (fst e) = Some (snd e)"
    by (simp add: map_of_js_map_set)
  then show ?thesis
    by (cases "fst e = k") (auto simp: prod_eq_iff dest: map_of_SomeD)
qed

lemma map_of_js_map_delete: "map_of (js_map_delete k es) = (map_of es)(k := None)"
  by (induction es) (auto simp: js_map_delete_def fun_eq_iff)

lemma find_SomeD: "find P xs = Some x \<Longrightarrow> P x \<and> x \<in> set xs"
  by (auto simp: find_Some_iff)

text \<open>
  Claim C3 says that, after account \<open>A\<close> joined on \<open>h1\<close> and then on \<open>h2\<close>, the
  disconnect of \<open>h2\<close> removes the entry of \<open>A\<close> and broadcasts \<^verbatim>\<open>offline\<close> for
  \<open>A\<close>. The disconnect handler removes the first entry whose value is the connection
  and stops. When the connection \<open>h2\<close> has joined for account 3 before it joins for
  account 1, its disconnect removes the entry of account 3 and broadcasts
  \<^verbatim>\<open>offline\<close> for account 3; account 1 stays registered to \<open>h2\<close>.
\<close>

theorem presence_shared_handle_counterexample:
  "js_map_get (onlineUsers (fst (on_join ''h2'' 1 (fst (on_join ''h1'' 1
        (fst (on_join ''h2'' 3 srv_idle))))))) 1 = Some ''h2''
   \<and> on_disconnect ''h2'' (fst (on_disconnect ''h1''
        (fst (on_join ''h2'' 1 (fst (on_join ''h1'' 1 (fst (on_join ''h2'' 3 srv_idle))))))))
     = (\<lparr>srv_db = db_accounts, onlineUsers = [(1, ''h2'')]\<rparr>,
        [(IoEmit, ''user_status'', Status 3 ''offline'')])"
  by (simp add: on_join_def on_disconnect_def js_map_get_def js_map_delete_def srv_idle_def)

text \<open>
  Claim C3 as amended. Let \<open>h1 \<noteq> h2\<close>, and let no account other than \<open>A\<close> be
  registered to \<open>h2\<close>. After \<open>A\<close> joins on \<open>h1\<close> and then on \<open>h2\<close>, the registry
  maps \<open>A\<close> to \<open>h2\<close>; the disconnect of \<open>h1\<close> leaves that entry as it is; the
  disconnect of \<open>h2\<close> then removes it and broadcasts \<^verbatim>\<open>user_status\<close>
  \<^verbatim>\<open>offline\<close> for \<open>A\<close>. (The keys of a \<^verbatim>\<open>Map\<close> are distinct.)
\<close>

theorem presence_last_connect_wins:
  assumes "h1 \<noteq> h2"
    and "distinct (map fst (onlineUsers st))"
    and "\<forall>e \<in> set (onlineUsers st). snd e = h2 \<longrightarrow> fst e = A"
    and "st2 = fst (on_join h2 A (fst (on_join h1 A st)))"
    and "st3 = fst (on_disconnect h1 st2)"
  shows "js_map_get (onlineUsers st2) A = Some h2
       \<and> js_map_get (onlineUsers st3) A = Some h2
       \<and> js_map_get (onlineUsers (fst (on_disconnect h2 st3))) A = None
       \<and> snd (on_disconnect h2 st3) = [(IoEmit, ''user_status'', Status A ''offline'')]"
proof -
  let ?m = "onlineUsers st"
  let ?m1 = "js_map_set A h1 ?m"
  let ?m2 = "js_map_set A h2 ?m1"
  have m2: "onlineUsers st2 = ?m2"
    by (simp add: assms(4) on_join_def)
  have d1: "distinct (map fst ?m1)"
    using assms(2) by (rule distinct_js_map_set)
  have d2: "distinct (map fst ?m2)"
    using d1 by (rule distinct_js_map_set)
  have g2: "map_of ?m2 A = Some h2"
    by (simp add: map_of_js_map_set)
  have in2: "(A, h2) \<in> set ?m2"
    using g2 by (rule map_of_SomeD)
  have ent2: "e = (A, h2) \<or> (e \<in> set ?m \<and> fst e \<noteq> A)" if "e \<in> set ?m2" for e
    using entry_js_map_set [OF d1 that] entry_js_map_set [OF assms(2), of e A h1] by auto
  have only2: "fst e = A" if "e \<in> set ?m2" and "snd e = h2" for e
    using ent2 [OF that(1)] that(2) assms(3) by (metis fst_conv)
  have other1: "fst e \<noteq> A" if "e \<in> set ?m2" and "snd e = h1" for e
    using ent2 [OF that(1)] that(2) assms(1) by (metis snd_conv)
  obtain u where m3: "onlineUsers st3 = ?m2 \<or> (onlineUsers st3 = js_map_delete u ?m2 \<and> u \<noteq> A)"
  proof (cases "find (\<lambda>e. snd e = h1) ?m2")
    case None
    then have "onlineUsers st3 = ?m2"
      by (simp add: assms(5) on_disconnect_def m2)
    then show ?thesis using that by blast
  next
    case (Some e)
    from find_SomeD [OF Some] have "fst e \<noteq> A"
      using other1 by blast
    moreover have "onlineUsers st3 = js_map_delete (fst e) ?m2"
      using Some by (simp add: assms(5) on_disconnect_def m2 case_prod_beta)
    ultimately show ?thesis using that by blast
  qed
  have g3: "map_of (onlineUsers st3) A = Some h2"
    using m3 g2 by (auto simp: map_of_js_map_delete)
  have sub3: "set (onlineUsers st3) \<subseteq> set ?m2"
    using m3 by (auto simp: js_map_delete_def)
  have "\<exists>e \<in> set (onlineUsers st3). snd e = h2"
    using map_of_SomeD [OF g3] by force
  then obtain e where f: "find (\<lambda>e. snd e = h2) (onlineUsers st3) = Some e"
    by (cases "find (\<lambda>e. snd e = h2) (onlineUsers st3)") (auto simp: find_None_iff)
  from find_SomeD [OF f] sub3 only2 have e: "fst e = A" by blast
  have last: "on_disconnect h2 st3 =
      (st3\<lparr>onlineUsers := js_map_delete A (onlineUsers st3)\<rparr>,
       [(IoEmit, ''user_status'', Status A ''offline'')])"
    using f e by (simp add: on_disconnect_def case_prod_beta)
  show ?thesis
    by (simp add: js_map_get_def m2 g2 g3 last map_of_js_map_delete)
qed

theorem presence_last_connect_wins_witness:
  "js_map_get (onlineUsers (fst (on_join ''h2'' 1 (fst (on_join ''h1'' 1 srv_online))))) 1 = Some ''h2''
   \<and> js_map_get (onlineUsers (fst (on_disconnect ''h1''
        (fst (on_join ''h2'' 1 (fst (on_join ''h1'' 1 srv_online))))))) 1 = Some ''h2''
   \<and> on_disconnect ''h2'' (fst (on_disconnect ''h1''
        (fst (on_join ''h2'' 1 (fst (on_join ''h1'' 1 srv_online))))))
     = (srv_online, [(IoEmit, ''user_status'', Status 1 ''offline'')])"
proof -
  have a: "''h1'' \<noteq> ''h2''" by simp
  have b: "distinct (map fst (onlineUsers srv_online))" by (simp add: srv_online_def)
  have c: "\<forall>e \<in> set (onlineUsers srv_online). snd e = ''h2'' \<longrightarrow> fst e = 1"
    by (simp add: srv_online_def)
  show ?thesis
    using presence_last_connect_wins [OF a b c refl refl]
    by (simp add: on_join_def on_disconnect_def js_map_delete_def srv_online_def)
qed

section \<open>Results on the notification listing\<close>

lemma sorted_desc_order_by:
  "sorted_wrt (\<lambda>a b. created_at_of b \<le> created_at_of a) (order_by_created_at_desc rows)"
proof -
  have "sorted (map created_at_of (sort_key created_at_of rows))"
    by (rule sorted_sort_key)
  then have "sorted_wrt (\<lambda>a b. created_at_of a \<le> created_at_of b) (sort_key created_at_of rows)"
    by (simp add: sorted_map)
  then show ?thesis
    by (simp add: order_by_created_at_desc_def sorted_wrt_rev)
qed

lemma mset_order_by: "mset (order_by_created_at_desc rows) = mset rows"
  by (simp add: order_by_created_at_desc_def)

lemma notifications_join_all:
  "\<forall>n \<in> set ns. P n \<longrightarrow> us (n_actor_id n) \<noteq> None \<Longrightarrow>
   map fst (concat (map (\<lambda>n. case us (n_actor_id n) of None \<Rightarrow> [] | Some u \<Rightarrow> [(n, u)])
                        (filter P ns))) = filter P ns"
  by (induction ns) auto

text \<open>
  Claim C10. \<^verbatim>\<open>GET /api/notifications/:userId\<close> returns at most 50 rows, newest
  first. The rows it leaves out are no newer than any row it returns: the joined rows of
  the account are the returned rows together with a list \<open>older\<close> whose timestamps are
  at most every returned timestamp. The read flag plays no part. When every actor of the
  account's notifications has a \<^verbatim>\<open>users\<close> row, the joined rows are all the
  notifications of the account.
\<close>

theorem notifications_listing_newest_50:
  "length (get_api_notifications db u) = min 50 (length (notifications_join db u))
   \<and> sorted_wrt (\<lambda>a b. created_at_of b \<le> created_at_of a) (get_api_notifications db u)
   \<and> (\<exists>older. mset (notifications_join db u) = mset (get_api_notifications db u) + mset older
        \<and> (\<forall>r \<in> set (get_api_notifications db u). \<forall>q \<in> set older.
              created_at_of q \<le> created_at_of r))
   \<and> ((\<forall>n \<in> set (notifications db). n_user_id n = u \<longrightarrow> users db (n_actor_id n) \<noteq> None) \<longrightarrow>
        map fst (notifications_join db u) = filter (\<lambda>n. n_user_id n = u) (notifications db))"
proof -
  let ?rows = "notifications_join db u"
  let ?s = "order_by_created_at_desc ?rows"
  have split: "?s = take 50 ?s @ drop 50 ?s" by simp
  have srt: "sorted_wrt (\<lambda>a b. created_at_of b \<le> created_at_of a) (take 50 ?s @ drop 50 ?s)"
    using sorted_desc_order_by [of ?rows] by simp
  have len: "length ?s = length ?rows"
    using mset_order_by [of ?rows] by (metis size_mset)
  have 1: "length (get_api_notifications db u) = min 50 (length ?rows)"
    by (simp add: get_api_notifications_def len)
  have 2: "sorted_wrt (\<lambda>a b. created_at_of b \<le> created_at_of a) (get_api_notifications db u)"
    using srt [unfolded sorted_wrt_append] by (simp add: get_api_notifications_def)
  have "mset ?rows = mset (take 50 ?s) + mset (drop 50 ?s)"
    using mset_order_by [of ?rows] by (metis split mset_append)
  moreover have "\<forall>r \<in> set (take 50 ?s). \<forall>q \<in> set (drop 50 ?s). created_at_of q \<le> created_at_of r"
    using srt [unfolded sorted_wrt_append] by blast
  ultimately have 3: "\<exists>older. mset ?rows = mset (get_api_notifications db u) + mset older
        \<and> (\<forall>r \<in> set (get_api_notifications db u). \<forall>q \<in> set older.
              created_at_of q \<le> created_at_of r)"
    unfolding get_api_notifications_def by blast
  have 4: "(\<forall>n \<in> set (notifications db). n_user_id n = u \<longrightarrow> users db (n_actor_id n) \<noteq> None) \<longrightarrow>
        map fst ?rows = filter (\<lambda>n. n_user_id n = u) (notifications db)"
    unfolding notifications_join_def by (simp add: notifications_join_all)
  from 1 2 3 4 show ?thesis by blast
qed

theorem notifications_listing_newest_50_witness:
  "length (get_api_notifications db_busy 1) = 50
   \<and> notification_at 1 ''2026-01-01 09:00:00'' \<notin> fst ` set (get_api_notifications db_busy 1)
   \<and> map fst (notifications_join db_busy 1) = notifications db_busy"
proof -
  have l: "length (notifications_join db_busy 1) = 51"
    by code_simp
  have a: "\<forall>n \<in> set (notifications db_busy). n_user_id n = 1 \<longrightarrow> users db_busy (n_actor_id n) \<noteq> None"
    by code_simp
  have f: "filter (\<lambda>n. n_user_id n = 1) (notifications db_busy) = notifications db_busy"
    by code_simp
  have old: "notification_at 1 ''2026-01-01 09:00:00'' \<notin> fst ` set (get_api_notifications db_busy 1)"
    by code_simp
  from notifications_listing_newest_50 [of db_busy 1] l a f old show ?thesis
    by simp
qed

end
